theory Spec2Isabelle
  imports Main
begin

section \<open>The NgScrollbar component of ng-scrollbar.ts\<close>

text \<open>
  The component class \<open>NgScrollbar\<close> is embedded as a record of its fields together with
  the part of its environment that its methods act on: the mutation observers it has
  constructed, the calls it has made to the change detector, the values pushed into its
  update subject, and the live subscriptions of the three pipelines that the view-init
  hook sets up. Methods are functions from state to state; a method that can raise
  returns \<open>error + NgScrollbar\<close>. Time is a number of milliseconds.
\<close>

subsection \<open>Data\<close>

text \<open>The input \<open>shown: 'hover' | 'always' | 'native'\<close>.\<close>

datatype Shown = Hover | Always | Native

text \<open>Dereferencing \<open>undefined\<close> or \<open>null\<close> raises a TypeError.\<close>

datatype error = TypeError

text \<open>The four DOM properties of the viewport element that the component reads.\<close>

record HTMLElement =
  scrollWidth :: int
  scrollHeight :: int
  clientWidth :: int
  clientHeight :: int

text \<open>
  Angular's \<open>ElementRef\<close>: its \<open>nativeElement\<close> is null where the platform gives no
  direct access to elements.
\<close>

record ElementRef =
  nativeElement :: "HTMLElement option"

text \<open>\<open>CdkScrollable\<close> and \<open>CdkVirtualScrollViewport\<close>, read through \<open>getElementRef()\<close>.\<close>

record CdkScrollable =
  getElementRef :: ElementRef

text \<open>The directive \<open>NgScrollbarView\<close> of a custom viewport.\<close>

record NgScrollbarView =
  virtualScrollViewport :: CdkScrollable

text \<open>
  A \<open>MutationObserver\<close> constructed by the component: what it observes, with which
  options, and whether it is still connected. Its callback is always
  \<open>() => this.update()\<close>.
\<close>

record MutationObserver =
  target :: HTMLElement
  subtree :: bool
  childList :: bool
  characterData :: bool
  connected :: bool

text \<open>
  The state of one \<open>throttleTime(200)\<close> operator (rxjs, default configuration: leading
  edge, no trailing emission): the time at which it last let a value through, if any.
\<close>

type_synonym throttle = "nat option"

text \<open>
  The component. \<open>scrollViewport\<close> and \<open>customViewPort\<close> are view and content queries:
  undefined until the framework resolves them, and \<open>customViewPort\<close> stays undefined
  without a custom viewport. \<open>disableOnBreakpoints\<close> is \<open>None\<close> for a falsy input
  (\<open>false\<close>); any array, also the empty one, is truthy and is handed to the breakpoint
  observer. \<open>observer\<close> is the private
  field \<open>_observer\<close>, an index into \<open>observers\<close>, the observers constructed so far.
  \<open>platformBrowser\<close> is \<open>isPlatformBrowser(this._platform)\<close>.
  \<open>updatePulses\<close> are the times of the calls \<open>_updateObserver.next()\<close>, \<open>rechecks\<close> the
  times at which the update pipeline reached its \<open>markForCheck\<close>, and
  \<open>markForCheckCalls\<close> counts every call of \<open>_changeDetectorRef.markForCheck()\<close>.
  \<open>breakpointSubs\<close>, \<open>updateSubs\<close> and \<open>resizeSubs\<close> are the live subscriptions of the
  three pipelines of \<open>ngAfterViewInit\<close>, the throttled ones with their throttle state.
\<close>

record NgScrollbar =
  trackX :: bool
  trackY :: bool
  shown :: Shown
  autoUpdate :: bool
  scrollToDuration :: int
  disableOnBreakpoints :: "string list option"
  disabled :: bool
  scrollViewport :: "CdkScrollable option"
  customViewPort :: "NgScrollbarView option"
  observer :: "nat option"
  platformBrowser :: bool
  observers :: "MutationObserver list"
  markForCheckCalls :: nat
  updatePulses :: "nat list"
  rechecks :: "nat list"
  breakpointSubs :: nat
  updateSubs :: "throttle list"
  resizeSubs :: "throttle list"

text \<open>
  A freshly constructed component: the field initialisers of the class, no query
  resolved, nothing observed, nothing subscribed. The two strings stand for the media
  queries \<open>Breakpoints.HandsetLandscape\<close> and \<open>Breakpoints.HandsetPortrait\<close> of the CDK.
  The inputs that only style the template (\<open>viewClass\<close>, \<open>barClass\<close>, \<open>thumbClass\<close>,
  \<open>compact\<close>, \<open>invertX\<close>, \<open>invertY\<close>) are read by no method and are left out.
\<close>

definition NgScrollbar_new :: "bool \<Rightarrow> NgScrollbar" where
  "NgScrollbar_new browser =
     \<lparr> trackX = False, trackY = True, shown = Native, autoUpdate = True,
       scrollToDuration = 300,
       disableOnBreakpoints = Some [''HandsetLandscape'', ''HandsetPortrait''],
       disabled = False,
       scrollViewport = None, customViewPort = None, observer = None,
       platformBrowser = browser,
       observers = [], markForCheckCalls = 0, updatePulses = [], rechecks = [],
       breakpointSubs = 0, updateSubs = [], resizeSubs = [] \<rparr>"

subsection \<open>Getters\<close>

text \<open>
  \<open>get view()\<close>: the element of the custom viewport when there is one, of the default
  viewport otherwise. \<open>this.scrollViewport.getElementRef()\<close> raises when the view query
  is unresolved.
\<close>

definition view :: "NgScrollbar \<Rightarrow> error + HTMLElement option" where
  "view s =
     (case customViewPort s of
        Some c \<Rightarrow> Inr (nativeElement (getElementRef (virtualScrollViewport c)))
      | None \<Rightarrow>
          (case scrollViewport s of
             None \<Rightarrow> Inl TypeError
           | Some v \<Rightarrow> Inr (nativeElement (getElementRef v))))"

text \<open>\<open>get hideNativeScrollbars()\<close>: the width and the height of the viewport.\<close>

definition hideNativeScrollbars :: "NgScrollbar \<Rightarrow> string \<times> string" where
  "hideNativeScrollbars s =
     (let size = (if disabled s then ''100%'' else ''calc(100% + 18px)'')
      in (if trackY s then size else ''100%'', if trackX s then size else ''100%''))"

text \<open>
  \<open>showScrollbarY()\<close> and \<open>showScrollbarX()\<close>. The disjunction is short-circuit: with
  \<open>shown === 'always'\<close> the view is not read. Reading a size of a null view raises.
\<close>

definition showScrollbarY :: "NgScrollbar \<Rightarrow> error + bool" where
  "showScrollbarY s =
     (if shown s = Always then Inr True
      else (case view s of
              Inl e \<Rightarrow> Inl e
            | Inr None \<Rightarrow> Inl TypeError
            | Inr (Some v) \<Rightarrow> Inr (scrollHeight v > clientHeight v)))"

definition showScrollbarX :: "NgScrollbar \<Rightarrow> error + bool" where
  "showScrollbarX s =
     (if shown s = Always then Inr True
      else (case view s of
              Inl e \<Rightarrow> Inl e
            | Inr None \<Rightarrow> Inl TypeError
            | Inr (Some v) \<Rightarrow> Inr (scrollWidth v > clientWidth v)))"

subsection \<open>The update stream\<close>

text \<open>\<open>this._changeDetectorRef.markForCheck()\<close>.\<close>

definition markForCheck :: "NgScrollbar \<Rightarrow> NgScrollbar" where
  "markForCheck s = s\<lparr>markForCheckCalls := Suc (markForCheckCalls s)\<rparr>"

text \<open>
  \<open>throttleTime(200)\<close>: a value passes when no value has passed during the last 200 ms,
  and then starts a new window; a value inside the window is dropped.
\<close>

definition throttle_open :: "nat \<Rightarrow> throttle \<Rightarrow> bool" where
  "throttle_open now thr = (case thr of None \<Rightarrow> True | Some t0 \<Rightarrow> t0 + 200 \<le> now)"

definition throttle_next :: "nat \<Rightarrow> throttle \<Rightarrow> throttle" where
  "throttle_next now thr = (if throttle_open now thr then Some now else thr)"

text \<open>
  \<open>this._updateObserver.next()\<close> at time \<open>now\<close>: the subject hands the value to every
  live subscription of the pipeline \<open>throttleTime(200), tap(markForCheck)\<close>.
\<close>

definition updateObserver_next :: "nat \<Rightarrow> NgScrollbar \<Rightarrow> NgScrollbar" where
  "updateObserver_next now s =
     (let passing = length (filter (throttle_open now) (updateSubs s))
      in s\<lparr> updatePulses := updatePulses s @ [now],
            updateSubs := map (throttle_next now) (updateSubs s),
            rechecks := rechecks s @ replicate passing now,
            markForCheckCalls := markForCheckCalls s + passing \<rparr>)"

text \<open>\<open>update()\<close>.\<close>

definition update :: "nat \<Rightarrow> NgScrollbar \<Rightarrow> NgScrollbar" where
  "update now s = (if \<not> disabled s then updateObserver_next now s else s)"

subsection \<open>Enabling and disabling\<close>

text \<open>\<open>observer.disconnect()\<close> on the observer with index \<open>k\<close>.\<close>

definition disconnect :: "nat \<Rightarrow> MutationObserver list \<Rightarrow> MutationObserver list" where
  "disconnect k obs = (if k < length obs then obs[k := (obs ! k)\<lparr>connected := False\<rparr>] else obs)"

text \<open>
  \<open>enable()\<close>. The new observer is stored in \<open>_observer\<close> over the previous one, which
  is not disconnected.
\<close>

definition enable :: "NgScrollbar \<Rightarrow> error + NgScrollbar" where
  "enable s =
     (case view s of
        Inl e \<Rightarrow> Inl e
      | Inr None \<Rightarrow> Inr s
      | Inr (Some v) \<Rightarrow>
          (let s1 = markForCheck (s\<lparr>disabled := False\<rparr>)
           in if customViewPort s1 = None \<and> autoUpdate s1 \<and> platformBrowser s1
              then Inr (s1\<lparr> observer := Some (length (observers s1)),
                            observers := observers s1 @
                              [\<lparr> target = v, subtree = True, childList = True,
                                 characterData = True, connected = True \<rparr>] \<rparr>)
              else Inr s1))"

text \<open>\<open>disable()\<close>.\<close>

definition disable :: "NgScrollbar \<Rightarrow> NgScrollbar" where
  "disable s =
     (let s1 = s\<lparr>disabled := True\<rparr>
      in case observer s1 of
           None \<Rightarrow> s1
         | Some k \<Rightarrow> s1\<lparr>observers := disconnect k (observers s1)\<rparr>)"

text \<open>The input setter \<open>setDisabled\<close>.\<close>

definition setDisabled :: "bool \<Rightarrow> NgScrollbar \<Rightarrow> error + NgScrollbar" where
  "setDisabled disable_it s = (if disable_it then Inr (disable s) else enable s)"

subsection \<open>Lifecycle and events\<close>

text \<open>
  \<open>this._breakpointObserver.observe(queries)\<close> of the CDK: over an empty list of media
  queries it raises and gives no stream to subscribe to; over a list with an entry it
  gives the stream of \<open>{matches}\<close> values.
\<close>

definition breakpointObserver_observe :: "string list \<Rightarrow> error + unit" where
  "breakpointObserver_observe queries = (if queries = [] then Inl TypeError else Inr ())"

text \<open>
  The callback that \<open>ngAfterViewInit\<close> hands to \<open>Promise.resolve().then\<close>. Each \<open>subscribe()\<close>
  adds one live subscription; the resize pipeline exists in a browser only. An error
  raised by \<open>observe\<close> or by \<open>enable()\<close> ends the callback before the update and the
  resize pipelines are subscribed. What the breakpoint observer emits, from its first
  value on, arrives as \<open>breakpointMatch\<close>.
\<close>

definition ngAfterViewInit_task :: "NgScrollbar \<Rightarrow> error + NgScrollbar" where
  "ngAfterViewInit_task s =
     (case (if \<not> disabled s
            then (case disableOnBreakpoints s of
                    Some queries \<Rightarrow>
                      (case breakpointObserver_observe queries of
                         Inl e \<Rightarrow> Inl e
                       | Inr _ \<Rightarrow> Inr (s\<lparr>breakpointSubs := Suc (breakpointSubs s)\<rparr>))
                  | None \<Rightarrow> enable s)
            else Inr s) of
        Inl e \<Rightarrow> Inl e
      | Inr s1 \<Rightarrow>
          (let s2 = s1\<lparr>updateSubs := updateSubs s1 @ [None]\<rparr>
           in if platformBrowser s2
              then Inr (s2\<lparr>resizeSubs := resizeSubs s2 @ [None]\<rparr>)
              else Inr s2))"

text \<open>
  \<open>ngOnDestroy()\<close>: \<open>_unsubscribe$\<close> ends every subscription made with
  \<open>takeUntil(this._unsubscribe$)\<close>, then the stored observer is disconnected.
\<close>

definition ngOnDestroy :: "NgScrollbar \<Rightarrow> NgScrollbar" where
  "ngOnDestroy s =
     (let s1 = s\<lparr>breakpointSubs := 0, updateSubs := [], resizeSubs := []\<rparr>
      in case observer s1 of
           None \<Rightarrow> s1
         | Some k \<Rightarrow> s1\<lparr>observers := disconnect k (observers s1)\<rparr>)"

text \<open>Running a method that can raise \<open>n\<close> times, stopping at the first error.\<close>

fun repeatE :: "nat \<Rightarrow> ('s \<Rightarrow> error + 's) \<Rightarrow> 's \<Rightarrow> error + 's" where
  "repeatE 0 f s = Inr s"
| "repeatE (Suc n) f s = (case f s of Inl e \<Rightarrow> Inl e | Inr s' \<Rightarrow> repeatE n f s')"

text \<open>
  A value \<open>{matches}\<close> of the breakpoint observer: every live subscription of the
  pipeline runs \<open>result.matches ? this.disable() : this.enable()\<close>.
\<close>

definition breakpointMatch :: "bool \<Rightarrow> NgScrollbar \<Rightarrow> error + NgScrollbar" where
  "breakpointMatch matches s =
     repeatE (breakpointSubs s) (\<lambda>s'. if matches then Inr (disable s') else enable s') s"

text \<open>
  A \<open>resize\<close> event of the window at time \<open>now\<close>: every live subscription of the pipeline
  \<open>throttleTime(200), tap(() => this.update())\<close> gets it; \<open>update()\<close> runs once for each
  subscription whose throttle lets the event through.
\<close>

definition windowResize :: "nat \<Rightarrow> NgScrollbar \<Rightarrow> NgScrollbar" where
  "windowResize now s =
     (let passing = length (filter (throttle_open now) (resizeSubs s));
          s1 = s\<lparr>resizeSubs := map (throttle_next now) (resizeSubs s)\<rparr>
      in (update now ^^ passing) s1)"

text \<open>
  The browser reports a mutation to the observer with index \<open>k\<close>: a connected observer
  runs its callback \<open>() => this.update()\<close>.
\<close>

definition mutation :: "nat \<Rightarrow> nat \<Rightarrow> NgScrollbar \<Rightarrow> NgScrollbar" where
  "mutation k now s =
     (if k < length (observers s) \<and> connected (observers s ! k) then update now s else s)"

text \<open>What can happen to a component, and a run of timed events that stops at the first error.\<close>

datatype event =
    Update
  | Enable
  | Disable
  | SetDisabled bool
  | BreakpointMatch bool
  | WindowResize
  | Mutation nat
  | ViewInitTask
  | Destroy

fun step :: "nat \<Rightarrow> event \<Rightarrow> NgScrollbar \<Rightarrow> error + NgScrollbar" where
  "step now Update s = Inr (update now s)"
| "step now Enable s = enable s"
| "step now Disable s = Inr (disable s)"
| "step now (SetDisabled b) s = setDisabled b s"
| "step now (BreakpointMatch m) s = breakpointMatch m s"
| "step now WindowResize s = Inr (windowResize now s)"
| "step now (Mutation k) s = Inr (mutation k now s)"
| "step now ViewInitTask s = ngAfterViewInit_task s"
| "step now Destroy s = Inr (ngOnDestroy s)"

fun run :: "(nat \<times> event) list \<Rightarrow> NgScrollbar \<Rightarrow> error + NgScrollbar" where
  "run [] s = Inr s"
| "run ((now, ev) # evs) s =
     (case step now ev s of Inl e \<Rightarrow> Inl e | Inr s' \<Rightarrow> run evs s')"

text \<open>
  A component as the framework presents it once its queries are resolved: the default
  viewport over an element of the given sizes.
\<close>

definition mounted :: "bool \<Rightarrow> HTMLElement \<Rightarrow> NgScrollbar" where
  "mounted browser el =
     (NgScrollbar_new browser)
       \<lparr>scrollViewport := Some \<lparr>getElementRef = \<lparr>nativeElement = Some el\<rparr>\<rparr>\<rparr>"

definition box :: "int \<Rightarrow> int \<Rightarrow> HTMLElement" where
  "box scroll client =
     \<lparr> scrollWidth = scroll, scrollHeight = scroll, clientWidth = client, clientHeight = client \<rparr>"

text \<open>
  The same component once the callback of \<open>ngAfterViewInit\<close> has run in a browser: one live
  subscription of each pipeline, both throttles idle.
\<close>

definition started :: "HTMLElement \<Rightarrow> NgScrollbar" where
  "started el =
     (mounted True el)\<lparr>breakpointSubs := 1, updateSubs := [None], resizeSubs := [None]\<rparr>"

text \<open>A component over a custom viewport (a virtual scroll viewport) with the given element.\<close>

definition mountedCustom :: "bool \<Rightarrow> HTMLElement \<Rightarrow> NgScrollbar" where
  "mountedCustom browser el =
     (NgScrollbar_new browser)
       \<lparr>customViewPort :=
          Some \<lparr>virtualScrollViewport = \<lparr>getElementRef = \<lparr>nativeElement = Some el\<rparr>\<rparr>\<rparr>\<rparr>"

text \<open>A component whose default viewport is resolved but has no native element.\<close>

definition mountedNoElement :: "bool \<Rightarrow> NgScrollbar" where
  "mountedNoElement browser =
     (NgScrollbar_new browser)
       \<lparr>scrollViewport := Some \<lparr>getElementRef = \<lparr>nativeElement = None\<rparr>\<rparr>\<rparr>"

text \<open>The observer that \<open>enable()\<close> constructs over the element \<open>v\<close>.\<close>

definition contentObserver :: "HTMLElement \<Rightarrow> MutationObserver" where
  "contentObserver v =
     \<lparr> target = v, subtree = True, childList = True, characterData = True, connected = True \<rparr>"

section \<open>Concrete states\<close>

lemma view_mounted: "view (mounted b el) = Inr (Some el)"
  by (simp add: view_def mounted_def NgScrollbar_new_def)

lemma view_started: "view (started el) = Inr (Some el)"
  by (simp add: view_def started_def mounted_def NgScrollbar_new_def)

lemma view_mountedCustom: "view (mountedCustom b el) = Inr (Some el)"
  by (simp add: view_def mountedCustom_def NgScrollbar_new_def)

lemma view_mountedNoElement: "view (mountedNoElement b) = Inr None"
  by (simp add: view_def mountedNoElement_def NgScrollbar_new_def)

lemma task_mounted: "ngAfterViewInit_task (mounted True el) = Inr (started el)"
  by (simp add: ngAfterViewInit_task_def breakpointObserver_observe_def started_def
      mounted_def NgScrollbar_new_def)

lemma started_facts:
  "\<not> disabled (started el)"
  "updateSubs (started el) = [None]"
  "resizeSubs (started el) = [None]"
  "breakpointSubs (started el) = 1"
  "rechecks (started el) = []"
  "updatePulses (started el) = []"
  by (simp_all add: started_def mounted_def NgScrollbar_new_def)

section \<open>Visibility getters\<close>

text \<open>
  C1 (as stated, refuted). The claim: \<open>showScrollbarX\<close> / \<open>showScrollbarY\<close> return false
  whenever the mode is \<open>native\<close> or the axis's track flag is false, whatever the overflow.
  The getters read neither the track flag nor distinguish \<open>native\<close> from \<open>hover\<close>: the
  default component (mode \<open>native\<close>, \<open>trackY\<close> on, \<open>trackX\<close> off) over content of size
  2000 in a viewport of size 500 answers true on both axes.
\<close>

theorem showScrollbar_native_untracked_counterexample:
  "shown (mounted True (box 2000 500)) = Native
   \<and> trackY (mounted True (box 2000 500))
   \<and> showScrollbarY (mounted True (box 2000 500)) = Inr True
   \<and> \<not> trackX (mounted True (box 2000 500))
   \<and> showScrollbarX (mounted True (box 2000 500)) = Inr True"
  by (simp add: showScrollbarY_def showScrollbarX_def view_def mounted_def
      NgScrollbar_new_def box_def)

text \<open>
  C1 (amended). For every state whose viewport element exists, each getter returns true
  exactly when the mode is \<open>always\<close> or the axis's scroll size strictly exceeds its
  client size; so it returns false exactly when the mode is not \<open>always\<close> (\<open>native\<close>
  included) and the content does not overflow. The track flags have no influence on
  the result.
\<close>

theorem showScrollbar_overflow_based:
  assumes "view s = Inr (Some v)"
  shows "showScrollbarY s = Inr (shown s = Always \<or> scrollHeight v > clientHeight v)
       \<and> showScrollbarX s = Inr (shown s = Always \<or> scrollWidth v > clientWidth v)
       \<and> showScrollbarY (s\<lparr>trackY := ty\<rparr>) = showScrollbarY s
       \<and> showScrollbarX (s\<lparr>trackX := tx\<rparr>) = showScrollbarX s"
  using assms
  by (auto simp add: showScrollbarY_def showScrollbarX_def view_def split: option.splits)

theorem showScrollbar_overflow_based_witness:
  "view (mounted True (box 2000 500)) = Inr (Some (box 2000 500))
   \<and> showScrollbarY (mounted True (box 2000 500)) = Inr True
   \<and> showScrollbarX (mounted True (box 2000 500)) = Inr True
   \<and> showScrollbarY ((mounted True (box 2000 500))\<lparr>trackY := False\<rparr>) = Inr True
   \<and> showScrollbarX ((mounted True (box 400 500))\<lparr>shown := Hover\<rparr>) = Inr False"
  using showScrollbar_overflow_based
      [of "mounted True (box 2000 500)" "box 2000 500" False False]
    showScrollbar_overflow_based
      [of "(mounted True (box 400 500))\<lparr>shown := Hover\<rparr>" "box 400 500" False False]
  by (simp add: view_def mounted_def NgScrollbar_new_def box_def)

text \<open>
  C2. With the axis's track flag on, the getter returns true in mode \<open>always\<close>, whatever
  the sizes (the view is not even read), and in every other mode (\<open>hover\<close>, and \<open>native\<close>,
  which is overflow-based too) over an existing viewport element it returns true exactly
  when the axis's scroll size strictly exceeds its client size.
\<close>

theorem showScrollbar_always_or_overflow:
  "(trackY s \<longrightarrow>
      (shown s = Always \<longrightarrow> showScrollbarY s = Inr True) \<and>
      (shown s \<noteq> Always \<longrightarrow> view s = Inr (Some v) \<longrightarrow>
         showScrollbarY s = Inr (scrollHeight v > clientHeight v)))
   \<and> (trackX s \<longrightarrow>
      (shown s = Always \<longrightarrow> showScrollbarX s = Inr True) \<and>
      (shown s \<noteq> Always \<longrightarrow> view s = Inr (Some v) \<longrightarrow>
         showScrollbarX s = Inr (scrollWidth v > clientWidth v)))"
  by (simp add: showScrollbarY_def showScrollbarX_def)

theorem showScrollbar_always_or_overflow_witness:
  "showScrollbarY ((mounted True (box 400 500))\<lparr>shown := Hover, trackX := True\<rparr>) = Inr False
   \<and> showScrollbarX ((mounted True (box 2000 500))\<lparr>shown := Hover, trackX := True\<rparr>) = Inr True
   \<and> showScrollbarY ((NgScrollbar_new True)\<lparr>shown := Always\<rparr>) = Inr True"
  using showScrollbar_always_or_overflow
      [of "(mounted True (box 400 500))\<lparr>shown := Hover, trackX := True\<rparr>" "box 400 500"]
    showScrollbar_always_or_overflow
      [of "(mounted True (box 2000 500))\<lparr>shown := Hover, trackX := True\<rparr>" "box 2000 500"]
    showScrollbar_always_or_overflow [of "(NgScrollbar_new True)\<lparr>shown := Always\<rparr>" "box 0 0"]
  by (simp add: view_def mounted_def NgScrollbar_new_def box_def)

section \<open>The initial state\<close>

text \<open>
  C3 (as stated, refuted). The claim: at initialisation \<open>disabled\<close> is true. The field
  initialiser is \<open>disabled = false\<close>.
\<close>

theorem initially_disabled_counterexample:
  "\<not> disabled (NgScrollbar_new True)"
  by (simp add: NgScrollbar_new_def)

text \<open>
  C3 (amended). At initialisation, before the callback of \<open>ngAfterViewInit\<close> has run,
  \<open>disabled\<close> is false, with the queries unresolved or resolved: custom-scrollbar mode
  is on from construction. The native
  scrollbar of the tracked (vertical) axis is pushed out of the view, and \<open>update()\<close>
  is not a no-op but pushes a pulse.
\<close>

theorem initially_enabled:
  "\<not> disabled (NgScrollbar_new b)
   \<and> \<not> disabled (mounted b el)
   \<and> hideNativeScrollbars (NgScrollbar_new b) = (''calc(100% + 18px)'', ''100%'')
   \<and> updatePulses (update now (NgScrollbar_new b)) = [now]"
  by (simp add: NgScrollbar_new_def mounted_def hideNativeScrollbars_def update_def
      updateObserver_next_def)

section \<open>update()\<close>

lemma fold_update_disabled: "disabled s \<Longrightarrow> fold update ts s = s"
  by (induction ts) (simp_all add: update_def)

text \<open>
  C4. In every state with \<open>disabled = true\<close>, \<open>update()\<close> changes nothing: no field of
  the state, no pulse on the update stream; \<open>disable()\<close> leads to such a state. In every
  state with \<open>disabled = false\<close>, \<open>update()\<close> pushes exactly one pulse. After
  \<open>disable()\<close>, any number of calls of \<open>update()\<close> leaves the state as it is.
\<close>

theorem update_gated_by_disabled:
  "(disabled s \<longrightarrow> update now s = s)
   \<and> (\<not> disabled s \<longrightarrow> updatePulses (update now s) = updatePulses s @ [now])
   \<and> disabled (disable s) \<and> update now (disable s) = disable s
   \<and> fold update ts (disable s) = disable s"
proof -
  have d: "disabled (disable s)"
    by (simp add: disable_def Let_def split: option.splits)
  have "disabled s \<longrightarrow> update now s = s"
    by (simp add: update_def)
  moreover have "\<not> disabled s \<longrightarrow> updatePulses (update now s) = updatePulses s @ [now]"
    by (simp add: update_def updateObserver_next_def Let_def)
  moreover have "update now (disable s) = disable s"
    using d by (simp add: update_def)
  moreover have "fold update ts (disable s) = disable s"
    using d by (rule fold_update_disabled)
  ultimately show ?thesis using d by blast
qed

theorem update_gated_by_disabled_witness:
  "disabled (disable (mounted True (box 2000 500)))
   \<and> update 7 (disable (mounted True (box 2000 500))) = disable (mounted True (box 2000 500))
   \<and> \<not> disabled (mounted True (box 2000 500))
   \<and> updatePulses (update 7 (mounted True (box 2000 500))) = [7]"
  using update_gated_by_disabled [of "disable (mounted True (box 2000 500))" 7 "[]"]
    update_gated_by_disabled [of "mounted True (box 2000 500)" 7 "[]"]
  by (simp add: mounted_def NgScrollbar_new_def)

section \<open>The throttled update stream\<close>

lemma update_in_window:
  assumes "\<not> disabled s" "updateSubs s = [Some t0]" "t < t0 + 200"
  shows "update t s = s\<lparr>updatePulses := updatePulses s @ [t]\<rparr>"
  using assms
  by (simp add: update_def updateObserver_next_def throttle_open_def throttle_next_def)

lemma fold_update_in_window:
  assumes "\<not> disabled s" "updateSubs s = [Some t0]" "\<forall>t\<in>set ts. t < t0 + 200"
  shows "fold update ts s = s\<lparr>updatePulses := updatePulses s @ ts\<rparr>"
  using assms
proof (induction ts arbitrary: s)
  case Nil
  then show ?case by simp
next
  case (Cons t ts)
  let ?s1 = "s\<lparr>updatePulses := updatePulses s @ [t]\<rparr>"
  have "update t s = ?s1"
    using Cons.prems by (simp add: update_in_window)
  moreover have "fold update ts ?s1 = ?s1\<lparr>updatePulses := updatePulses ?s1 @ ts\<rparr>"
    using Cons.prems by (intro Cons.IH) simp_all
  ultimately show ?case by simp
qed

lemma update_open:
  assumes "\<not> disabled s" "updateSubs s = [thr]" "throttle_open t0 thr"
  shows "update t0 s =
           s\<lparr> updatePulses := updatePulses s @ [t0], updateSubs := [Some t0],
              rechecks := rechecks s @ [t0],
              markForCheckCalls := Suc (markForCheckCalls s) \<rparr>"
  using assms by (simp add: update_def updateObserver_next_def throttle_next_def)

text \<open>
  C5 (as stated, refuted). The claim: the one re-check of a burst fires no sooner than
  the window after the last pulse of the burst, and a re-check always fires after the
  burst settles. The pipeline is \<open>throttleTime(200)\<close>, not a debounce: of the pulses at
  0, 10 and 20 ms the first one is let through at once, the others are dropped, and
  nothing fires at or after 220 ms.
\<close>

theorem debounce_counterexample:
  "rechecks (fold update [0, 10, 20] (started (box 2000 500))) = [0]
   \<and> \<not> (\<exists>t \<in> set (rechecks (fold update [0, 10, 20] (started (box 2000 500)))). 20 + 200 \<le> t)"
  by (simp add: started_def mounted_def NgScrollbar_new_def update_def
      updateObserver_next_def throttle_open_def throttle_next_def)

text \<open>
  C5 (amended). For an enabled component with one subscription of the update pipeline
  whose throttle is open at \<open>t0\<close>, a burst of update pulses that starts at \<open>t0\<close> and whose
  other pulses all come before \<open>t0 + 200\<close> causes exactly one downstream re-check, at the
  time \<open>t0\<close> of the first pulse of the burst; every later pulse of the burst is pushed
  into the stream and dropped by the throttle, whose window runs from \<open>t0\<close>. So there is
  no more than one re-check per window, and ten pulses within 50 ms give exactly one.
\<close>

theorem throttled_burst:
  assumes "\<not> disabled s" and "updateSubs s = [thr]" and "throttle_open t0 thr"
    and "\<forall>t\<in>set ts. t < t0 + 200"
  shows "rechecks (fold update (t0 # ts) s) = rechecks s @ [t0]
       \<and> updatePulses (fold update (t0 # ts) s) = updatePulses s @ t0 # ts
       \<and> updateSubs (fold update (t0 # ts) s) = [Some t0]"
proof -
  let ?s1 = "update t0 s"
  have s1: "?s1 = s\<lparr> updatePulses := updatePulses s @ [t0], updateSubs := [Some t0],
              rechecks := rechecks s @ [t0],
              markForCheckCalls := Suc (markForCheckCalls s) \<rparr>"
    using assms(1-3) by (rule update_open)
  have "fold update ts ?s1 = ?s1\<lparr>updatePulses := updatePulses ?s1 @ ts\<rparr>"
    using assms(1,4) by (intro fold_update_in_window [where ?t0.0 = t0]) (simp_all add: s1)
  then show ?thesis by (simp add: s1)
qed

theorem throttled_burst_witness:
  "rechecks (fold update [0, 5, 10, 15, 20, 25, 30, 35, 40, 45] (started (box 2000 500))) = [0]"
  using throttled_burst
      [of "started (box 2000 500)" None 0 "[5, 10, 15, 20, 25, 30, 35, 40, 45]"]
  by (simp add: started_facts throttle_open_def)

text \<open>
  Pulses 50 ms apart over 450 ms do not collapse to one re-check: the throttle lets a
  pulse through every 200 ms.
\<close>

lemma spaced_pulses:
  "rechecks (fold update [0, 50, 100, 150, 200, 250, 300, 350, 400, 450]
      (started (box 2000 500))) = [0, 200, 400]"
  by (simp add: started_def mounted_def NgScrollbar_new_def update_def
      updateObserver_next_def throttle_open_def throttle_next_def)

section \<open>enable()\<close>

lemma enable_exists:
  assumes "view s = Inr (Some v)"
  shows "enable s =
     Inr (if customViewPort s = None \<and> autoUpdate s \<and> platformBrowser s
          then s\<lparr> disabled := False, markForCheckCalls := Suc (markForCheckCalls s),
                  observer := Some (length (observers s)),
                  observers := observers s @ [contentObserver v] \<rparr>
          else s\<lparr> disabled := False, markForCheckCalls := Suc (markForCheckCalls s) \<rparr>)"
  using assms by (simp add: enable_def markForCheck_def contentObserver_def Let_def)

lemma enable_cases:
  assumes "enable s = Inr s'"
  shows "s' = s
       \<or> s' = s\<lparr> disabled := False, markForCheckCalls := Suc (markForCheckCalls s) \<rparr>
       \<or> (\<exists>v. s' = s\<lparr> disabled := False, markForCheckCalls := Suc (markForCheckCalls s),
                  observer := Some (length (observers s)),
                  observers := observers s @ [contentObserver v] \<rparr>)"
  using assms
  by (auto simp add: enable_def markForCheck_def contentObserver_def Let_def
      split: sum.splits option.splits if_splits)

text \<open>
  C7 (as stated, refuted). The claim: in every state in which the viewport reference
  does not exist, missing or unready, \<open>enable()\<close> is a no-op and raises no fault. In a
  component whose view query is not resolved yet (and that has no custom viewport), the
  getter \<open>view\<close> dereferences the undefined \<open>scrollViewport\<close> and raises before the
  test \<open>if (this.view)\<close> of \<open>enable()\<close> is reached.
\<close>

theorem enable_unresolved_view_counterexample:
  "scrollViewport (NgScrollbar_new True) = None
   \<and> customViewPort (NgScrollbar_new True) = None
   \<and> view (NgScrollbar_new True) = Inl TypeError
   \<and> enable (NgScrollbar_new True) = Inl TypeError"
  by (simp add: enable_def view_def NgScrollbar_new_def)

text \<open>
  C7 (amended). In every state in which the getter \<open>view\<close> yields no element (the
  viewport object is there, its native element is not), \<open>enable()\<close> raises no fault and
  changes nothing.
\<close>

theorem enable_without_element:
  assumes "view s = Inr None"
  shows "enable s = Inr s"
  using assms by (simp add: enable_def)

theorem enable_without_element_witness:
  "view (mountedNoElement True) = Inr None
   \<and> enable (mountedNoElement True) = Inr (mountedNoElement True)"
  using enable_without_element [of "mountedNoElement True"]
  by (simp add: view_mountedNoElement)

text \<open>
  C8 (as stated, refuted). The claim: a successful \<open>enable()\<close> with auto-update in an
  environment with mutation observation starts observing the viewport and schedules an
  update pulse. Over a custom viewport it constructs no observer at all, and in no case
  does it push a pulse into the update stream: it calls \<open>markForCheck()\<close> itself.
\<close>

theorem enable_observes_and_pulses_counterexample:
  "autoUpdate (mountedCustom True (box 2000 500))
   \<and> platformBrowser (mountedCustom True (box 2000 500))
   \<and> enable (mountedCustom True (box 2000 500))
       = Inr ((mountedCustom True (box 2000 500))\<lparr>markForCheckCalls := 1\<rparr>)
   \<and> observers ((mountedCustom True (box 2000 500))\<lparr>markForCheckCalls := 1\<rparr>) = []
   \<and> updatePulses ((mountedCustom True (box 2000 500))\<lparr>markForCheckCalls := 1\<rparr>) = []
   \<and> enable (started (box 2000 500))
       = Inr ((started (box 2000 500))
               \<lparr>markForCheckCalls := 1, observer := Some 0,
                observers := [contentObserver (box 2000 500)]\<rparr>)
   \<and> updatePulses ((started (box 2000 500))
               \<lparr>markForCheckCalls := 1, observer := Some 0,
                observers := [contentObserver (box 2000 500)]\<rparr>) = []"
  by (simp add: enable_exists view_mountedCustom view_started)
     (simp add: mountedCustom_def started_def mounted_def NgScrollbar_new_def)

text \<open>
  C8 (amended). Whenever \<open>enable()\<close> succeeds (the viewport element exists), it sets
  \<open>disabled\<close> to false and calls \<open>markForCheck()\<close> once, directly: no pulse enters the
  update stream and the update pipeline does not fire. If moreover there is no custom
  viewport, auto-update is configured and the platform is a browser, it constructs and
  stores one new mutation observer on the viewport element, for subtree, child-list and
  character-data mutations, and a mutation reported to that observer runs \<open>update()\<close>;
  otherwise it constructs no observer.
\<close>

theorem enable_effects:
  assumes "view s = Inr (Some v)"
  shows "\<exists>s'. enable s = Inr s'
     \<and> \<not> disabled s'
     \<and> markForCheckCalls s' = Suc (markForCheckCalls s)
     \<and> updatePulses s' = updatePulses s
     \<and> rechecks s' = rechecks s
     \<and> (if customViewPort s = None \<and> autoUpdate s \<and> platformBrowser s
        then observers s' = observers s @
               [\<lparr> target = v, subtree = True, childList = True, characterData = True,
                  connected = True \<rparr>]
           \<and> observer s' = Some (length (observers s))
           \<and> mutation (length (observers s)) now s' = update now s'
        else observers s' = observers s \<and> observer s' = observer s)"
  using assms by (simp add: enable_exists mutation_def contentObserver_def)

theorem enable_effects_witness:
  "\<exists>s'. enable (mounted True (box 2000 500)) = Inr s'
     \<and> \<not> disabled s'
     \<and> markForCheckCalls s' = 1
     \<and> updatePulses s' = []
     \<and> rechecks s' = []
     \<and> observers s' = [contentObserver (box 2000 500)]
     \<and> observer s' = Some 0
     \<and> mutation 0 3 s' = update 3 s'"
  using enable_effects [of "mounted True (box 2000 500)" "box 2000 500" 3]
  by (simp add: view_mounted contentObserver_def) (simp add: mounted_def NgScrollbar_new_def)

section \<open>Observers that are never disconnected\<close>

lemma update_observers [simp]:
  "observers (update now s) = observers s" "observer (update now s) = observer s"
  "breakpointSubs (update now s) = breakpointSubs s"
  "disabled (update now s) = disabled s"
  "resizeSubs (update now s) = resizeSubs s"
  by (simp_all add: update_def updateObserver_next_def Let_def)

lemma funpow_update_observers [simp]:
  "observers ((update now ^^ k) s) = observers s"
  "observer ((update now ^^ k) s) = observer s"
  "breakpointSubs ((update now ^^ k) s) = breakpointSubs s"
  "disabled ((update now ^^ k) s) = disabled s"
  "resizeSubs ((update now ^^ k) s) = resizeSubs s"
  by (induction k) simp_all

lemma windowResize_observers [simp]:
  "observers (windowResize now s) = observers s"
  "observer (windowResize now s) = observer s"
  "breakpointSubs (windowResize now s) = breakpointSubs s"
  "disabled (windowResize now s) = disabled s"
  by (simp_all add: windowResize_def Let_def)

lemma mutation_observers [simp]:
  "observers (mutation k now s) = observers s"
  "observer (mutation k now s) = observer s"
  "breakpointSubs (mutation k now s) = breakpointSubs s"
  "disabled (mutation k now s) = disabled s"
  by (simp_all add: mutation_def)

lemma disconnect_length [simp]: "length (disconnect k obs) = length obs"
  by (simp add: disconnect_def)

lemma disconnect_other: "k \<noteq> n \<Longrightarrow> disconnect k obs ! n = obs ! n"
  by (simp add: disconnect_def)

lemma disconnect_same: "k < length obs \<Longrightarrow> \<not> connected (disconnect k obs ! k)"
  by (simp add: disconnect_def)

text \<open>
  An observer that is connected and is not the stored one stays so: \<open>disable()\<close> and
  \<open>ngOnDestroy()\<close> disconnect the stored observer only, and \<open>enable()\<close> stores a new one.
\<close>

lemma disable_keeps_lost:
  assumes "n < length (observers s)" "connected (observers s ! n)" "observer s \<noteq> Some n"
  shows "n < length (observers (disable s)) \<and> connected (observers (disable s) ! n)
       \<and> observer (disable s) \<noteq> Some n"
  using assms by (auto simp add: disable_def Let_def disconnect_other split: option.splits)

lemma ngOnDestroy_keeps_lost:
  assumes "n < length (observers s)" "connected (observers s ! n)" "observer s \<noteq> Some n"
  shows "n < length (observers (ngOnDestroy s)) \<and> connected (observers (ngOnDestroy s) ! n)
       \<and> observer (ngOnDestroy s) \<noteq> Some n"
  using assms by (auto simp add: ngOnDestroy_def Let_def disconnect_other split: option.splits)

lemma enable_keeps_lost:
  assumes "enable s = Inr s'"
    and "n < length (observers s)" "connected (observers s ! n)" "observer s \<noteq> Some n"
  shows "n < length (observers s') \<and> connected (observers s' ! n) \<and> observer s' \<noteq> Some n"
  using enable_cases [OF assms(1)] assms(2-4) by (auto simp add: nth_append)

lemma repeatE_toggle_keeps_lost:
  assumes "repeatE k (\<lambda>s'. if m then Inr (disable s') else enable s') s = Inr s'"
    and "n < length (observers s)" "connected (observers s ! n)" "observer s \<noteq> Some n"
  shows "n < length (observers s') \<and> connected (observers s' ! n) \<and> observer s' \<noteq> Some n"
  using assms
proof (induction k arbitrary: s)
  case 0
  then show ?case by simp
next
  case (Suc k)
  from Suc.prems(1) obtain s1
    where s1: "(if m then Inr (disable s) else enable s) = Inr s1"
      and rest: "repeatE k (\<lambda>s'. if m then Inr (disable s') else enable s') s1 = Inr s'"
    by (auto split: sum.splits)
  have "n < length (observers s1) \<and> connected (observers s1 ! n) \<and> observer s1 \<noteq> Some n"
  proof (cases m)
    case True
    with s1 have "s1 = disable s" by simp
    then show ?thesis using disable_keeps_lost [OF Suc.prems(2-4)] by simp
  next
    case False
    with s1 have "enable s = Inr s1" by simp
    then show ?thesis using enable_keeps_lost Suc.prems(2-4) by blast
  qed
  then show ?case using Suc.IH [OF rest] by blast
qed

lemma breakpointMatch_keeps_lost:
  assumes "breakpointMatch m s = Inr s'"
    and "n < length (observers s)" "connected (observers s ! n)" "observer s \<noteq> Some n"
  shows "n < length (observers s') \<and> connected (observers s' ! n) \<and> observer s' \<noteq> Some n"
  using assms repeatE_toggle_keeps_lost unfolding breakpointMatch_def by blast

lemma task_keeps_lost:
  assumes "ngAfterViewInit_task s = Inr s'"
    and "n < length (observers s)" "connected (observers s ! n)" "observer s \<noteq> Some n"
  shows "n < length (observers s') \<and> connected (observers s' ! n) \<and> observer s' \<noteq> Some n"
proof -
  obtain s1 where obs: "observers s' = observers s1" "observer s' = observer s1"
    and s1: "s1 = s \<or> s1 = s\<lparr>breakpointSubs := Suc (breakpointSubs s)\<rparr> \<or> enable s = Inr s1"
    using assms(1)
    by (auto simp add: ngAfterViewInit_task_def Let_def
        split: sum.splits if_splits option.splits)
  have "n < length (observers s1) \<and> connected (observers s1 ! n) \<and> observer s1 \<noteq> Some n"
    using s1 assms(2-4) enable_keeps_lost [of s s1 n] by auto
  then show ?thesis by (simp add: obs)
qed

lemma step_keeps_lost:
  assumes "step now ev s = Inr s'"
    and "n < length (observers s)" "connected (observers s ! n)" "observer s \<noteq> Some n"
  shows "n < length (observers s') \<and> connected (observers s' ! n) \<and> observer s' \<noteq> Some n"
proof (cases ev)
  case Update
  then show ?thesis using assms by auto
next
  case Enable
  then show ?thesis using assms enable_keeps_lost by auto
next
  case Disable
  then show ?thesis using assms disable_keeps_lost by auto
next
  case (SetDisabled b)
  then show ?thesis using assms enable_keeps_lost [of s s' n] disable_keeps_lost [of n s]
    by (auto simp add: setDisabled_def split: if_splits)
next
  case (BreakpointMatch m)
  then show ?thesis using assms breakpointMatch_keeps_lost by auto
next
  case WindowResize
  then show ?thesis using assms by auto
next
  case (Mutation k)
  then show ?thesis using assms by auto
next
  case ViewInitTask
  then show ?thesis using assms task_keeps_lost by auto
next
  case Destroy
  then show ?thesis using assms ngOnDestroy_keeps_lost by auto
qed

lemma run_keeps_lost:
  assumes "run evs s = Inr s'"
    and "n < length (observers s)" "connected (observers s ! n)" "observer s \<noteq> Some n"
  shows "n < length (observers s') \<and> connected (observers s' ! n) \<and> observer s' \<noteq> Some n"
  using assms
proof (induction evs arbitrary: s)
  case Nil
  then show ?case by simp
next
  case (Cons tev evs)
  obtain now ev where tev: "tev = (now, ev)" by (cases tev)
  with Cons.prems(1) obtain s1 where s1: "step now ev s = Inr s1" "run evs s1 = Inr s'"
    by (auto split: sum.splits)
  from step_keeps_lost [OF s1(1) Cons.prems(2-4)] Cons.IH [OF s1(2)]
  show ?case by blast
qed

text \<open>
  C10. With the viewport element present, no custom viewport, auto-update on and a
  browser platform, two calls of \<open>enable()\<close> in a row construct two observers and store
  the second over the first without disconnecting it. \<open>disable()\<close> and \<open>ngOnDestroy()\<close>
  then disconnect the stored, second observer and nothing else, and whatever happens to
  the component afterwards, the first observer is still connected.
\<close>

theorem enable_twice_loses_observer:
  assumes "view s = Inr (Some v)" and "customViewPort s = None" and "autoUpdate s"
    and "platformBrowser s"
  shows "\<exists>s1 s2. enable s = Inr s1 \<and> enable s1 = Inr s2
     \<and> observers s2 = observers s @ [contentObserver v, contentObserver v]
     \<and> observer s2 = Some (Suc (length (observers s)))
     \<and> connected (observers (disable s2) ! length (observers s))
     \<and> \<not> connected (observers (disable s2) ! Suc (length (observers s)))
     \<and> connected (observers (ngOnDestroy s2) ! length (observers s))
     \<and> \<not> connected (observers (ngOnDestroy s2) ! Suc (length (observers s)))
     \<and> (\<forall>i. i \<noteq> Suc (length (observers s)) \<longrightarrow>
           observers (disable s2) ! i = observers s2 ! i
           \<and> observers (ngOnDestroy s2) ! i = observers s2 ! i)
     \<and> (\<forall>evs s3. run evs s2 = Inr s3 \<longrightarrow>
           length (observers s) < length (observers s3)
           \<and> connected (observers s3 ! length (observers s)))"
proof -
  let ?n = "length (observers s)"
  let ?s1 = "s\<lparr> disabled := False, markForCheckCalls := Suc (markForCheckCalls s),
                observer := Some ?n, observers := observers s @ [contentObserver v] \<rparr>"
  let ?s2 = "?s1\<lparr> disabled := False, markForCheckCalls := Suc (markForCheckCalls ?s1),
                observer := Some (length (observers ?s1)),
                observers := observers ?s1 @ [contentObserver v] \<rparr>"
  have e1: "enable s = Inr ?s1"
    using assms by (simp add: enable_exists)
  have v1: "view ?s1 = Inr (Some v)"
    using assms(1) by (simp add: view_def split: option.splits)
  have e2: "enable ?s1 = Inr ?s2"
    using assms(2-4) enable_exists [OF v1] by simp
  have obs2: "observers ?s2 = observers s @ [contentObserver v, contentObserver v]"
    by simp
  have cur2: "observer ?s2 = Some (Suc ?n)"
    by simp
  have lost: "?n < length (observers ?s2)" "connected (observers ?s2 ! ?n)"
    "observer ?s2 \<noteq> Some ?n"
    by (simp_all add: nth_append contentObserver_def)
  have dis: "connected (observers (disable ?s2) ! ?n)"
    using disable_keeps_lost [OF lost] by blast
  have dis': "\<not> connected (observers (disable ?s2) ! Suc ?n)"
    by (simp add: disable_def Let_def disconnect_def)
  have des: "connected (observers (ngOnDestroy ?s2) ! ?n)"
    using ngOnDestroy_keeps_lost [OF lost] by blast
  have des': "\<not> connected (observers (ngOnDestroy ?s2) ! Suc ?n)"
    by (simp add: ngOnDestroy_def Let_def disconnect_def)
  have only: "\<forall>i. i \<noteq> Suc ?n \<longrightarrow>
           observers (disable ?s2) ! i = observers ?s2 ! i
           \<and> observers (ngOnDestroy ?s2) ! i = observers ?s2 ! i"
    by (simp add: disable_def ngOnDestroy_def Let_def disconnect_other)
  have never: "\<forall>evs s3. run evs ?s2 = Inr s3 \<longrightarrow>
           ?n < length (observers s3) \<and> connected (observers s3 ! ?n)"
    using run_keeps_lost [OF _ lost] by blast
  show ?thesis
    using e1 e2 obs2 cur2 dis dis' des des' only never by blast
qed

theorem enable_twice_loses_observer_witness:
  "\<exists>s1 s2. enable (mounted True (box 2000 500)) = Inr s1 \<and> enable s1 = Inr s2
     \<and> observers s2 = [contentObserver (box 2000 500), contentObserver (box 2000 500)]
     \<and> observer s2 = Some 1
     \<and> connected (observers (disable s2) ! 0)
     \<and> \<not> connected (observers (disable s2) ! 1)
     \<and> connected (observers (ngOnDestroy s2) ! 0)
     \<and> \<not> connected (observers (ngOnDestroy s2) ! 1)
     \<and> (\<exists>s3. run [(10, Disable), (20, Update), (30, Destroy)] s2 = Inr s3
           \<and> connected (observers s3 ! 0))"
proof -
  have a: "view (mounted True (box 2000 500)) = Inr (Some (box 2000 500))"
    "customViewPort (mounted True (box 2000 500)) = None"
    "autoUpdate (mounted True (box 2000 500))"
    "platformBrowser (mounted True (box 2000 500))"
    by (simp_all add: view_mounted) (simp_all add: mounted_def NgScrollbar_new_def)
  have n: "observers (mounted True (box 2000 500)) = []"
    by (simp add: mounted_def NgScrollbar_new_def)
  from enable_twice_loses_observer [OF a] obtain s1 s2
    where e: "enable (mounted True (box 2000 500)) = Inr s1" "enable s1 = Inr s2"
      and o: "observers s2 = [contentObserver (box 2000 500), contentObserver (box 2000 500)]"
        "observer s2 = Some 1"
      and d: "connected (observers (disable s2) ! 0)" "\<not> connected (observers (disable s2) ! 1)"
        "connected (observers (ngOnDestroy s2) ! 0)"
        "\<not> connected (observers (ngOnDestroy s2) ! 1)"
      and never: "\<And>evs s3. run evs s2 = Inr s3 \<Longrightarrow> connected (observers s3 ! 0)"
    unfolding n by auto
  have "run [(10, Disable), (20, Update), (30, Destroy)] s2
      = Inr (ngOnDestroy (update 20 (disable s2)))"
    by simp
  from never [OF this] this e o d show ?thesis by blast
qed

section \<open>The breakpoint subscription\<close>

lemma enable_breakpointSubs:
  assumes "enable s = Inr s'"
  shows "breakpointSubs s' = breakpointSubs s"
  using enable_cases [OF assms] by auto

lemma disable_breakpointSubs [simp]: "breakpointSubs (disable s) = breakpointSubs s"
  by (simp add: disable_def Let_def split: option.splits)

lemma repeatE_toggle_breakpointSubs:
  assumes "repeatE k (\<lambda>s'. if m then Inr (disable s') else enable s') s = Inr s'"
  shows "breakpointSubs s' = breakpointSubs s"
  using assms
proof (induction k arbitrary: s)
  case 0
  then show ?case by simp
next
  case (Suc k)
  from Suc.prems obtain s1
    where s1: "(if m then Inr (disable s) else enable s) = Inr s1"
      and rest: "repeatE k (\<lambda>s'. if m then Inr (disable s') else enable s') s1 = Inr s'"
    by (auto split: sum.splits)
  have "breakpointSubs s1 = breakpointSubs s"
    using s1 enable_breakpointSubs [of s s1] by (auto split: if_splits)
  then show ?case using Suc.IH [OF rest] by simp
qed

lemma step_breakpointSubs:
  assumes "step now ev s = Inr s'" "ev \<noteq> ViewInitTask" "ev \<noteq> Destroy"
  shows "breakpointSubs s' = breakpointSubs s"
proof (cases ev)
  case Enable
  then show ?thesis using assms enable_breakpointSubs by auto
next
  case (SetDisabled b)
  then show ?thesis using assms enable_breakpointSubs [of s s']
    by (auto simp add: setDisabled_def split: if_splits)
next
  case (BreakpointMatch m)
  then show ?thesis using assms repeatE_toggle_breakpointSubs [of "breakpointSubs s" m s s']
    by (simp add: breakpointMatch_def)
qed (use assms in auto)

lemma run_breakpointSubs:
  assumes "run evs s = Inr s'"
    and "\<forall>e\<in>set evs. snd e \<noteq> ViewInitTask \<and> snd e \<noteq> Destroy"
  shows "breakpointSubs s' = breakpointSubs s"
  using assms
proof (induction evs arbitrary: s)
  case Nil
  then show ?case by simp
next
  case (Cons tev evs)
  obtain now ev where tev: "tev = (now, ev)" by (cases tev)
  with Cons.prems(1) obtain s1 where s1: "step now ev s = Inr s1" "run evs s1 = Inr s'"
    by (auto split: sum.splits)
  have "breakpointSubs s1 = breakpointSubs s"
    using step_breakpointSubs [OF s1(1)] Cons.prems(2) tev by simp
  moreover have "breakpointSubs s' = breakpointSubs s1"
    using Cons.IH [OF s1(2)] Cons.prems(2) by simp
  ultimately show ?case by simp
qed

lemma breakpointMatch_single:
  assumes "breakpointSubs s = 1"
  shows "breakpointMatch True s = Inr (disable s)" "breakpointMatch False s = enable s"
  using assms by (simp_all add: breakpointMatch_def split: sum.splits)

lemma breakpointMatch_destroyed:
  "breakpointMatch m (ngOnDestroy s) = Inr (ngOnDestroy s)"
  by (simp add: breakpointMatch_def ngOnDestroy_def Let_def split: option.splits)

text \<open>
  Over the empty breakpoint list the callback of an enabled component ends in the
  error of \<open>observe\<close>: nothing is subscribed, the update and resize pipelines included.
\<close>

lemma task_empty_breakpoint_list:
  assumes "\<not> disabled s" and "disableOnBreakpoints s = Some []"
  shows "ngAfterViewInit_task s = Inl TypeError"
  using assms by (simp add: ngAfterViewInit_task_def breakpointObserver_observe_def)

text \<open>
  C6 (as stated, refuted). The claim: with a breakpoint list configured, every
  breakpoint value with \<open>matches = false\<close> invokes \<open>enable()\<close>. The callback of
  \<open>ngAfterViewInit\<close> subscribes under \<open>if (!this.disabled)\<close> only: a component that was
  disabled through its input before the callback ran never subscribes, and a later value
  \<open>matches = false\<close> leaves it disabled, although the default breakpoint list is set and
  \<open>enable()\<close> would have changed the state.
\<close>

theorem breakpoint_subscription_counterexample:
  "run [(0, SetDisabled True), (1, ViewInitTask), (2, BreakpointMatch False)]
       (mounted True (box 2000 500))
     = Inr ((mounted True (box 2000 500))
             \<lparr>disabled := True, updateSubs := [None], resizeSubs := [None]\<rparr>)
   \<and> disableOnBreakpoints ((mounted True (box 2000 500))
             \<lparr>disabled := True, updateSubs := [None], resizeSubs := [None]\<rparr>) \<noteq> None
   \<and> enable ((mounted True (box 2000 500))
             \<lparr>disabled := True, updateSubs := [None], resizeSubs := [None]\<rparr>)
     \<noteq> Inr ((mounted True (box 2000 500))
             \<lparr>disabled := True, updateSubs := [None], resizeSubs := [None]\<rparr>)"
  by (simp add: setDisabled_def disable_def ngAfterViewInit_task_def breakpointMatch_def
      enable_def view_def markForCheck_def mounted_def NgScrollbar_new_def)

text \<open>
  C6 (amended). When a breakpoint list with at least one entry is configured and the
  component is not disabled at the moment the callback of \<open>ngAfterViewInit\<close> runs, the
  callback establishes exactly one subscription; from then on, through every run of events up to teardown, that one
  subscription stays, and a breakpoint value with \<open>matches = true\<close> does what
  \<open>disable()\<close> does and one with \<open>matches = false\<close> what \<open>enable()\<close> does. After
  \<open>ngOnDestroy()\<close> no subscription is left and breakpoint values change nothing.
\<close>

theorem breakpoint_subscription:
  assumes "\<not> disabled s" and "disableOnBreakpoints s = Some queries" and "queries \<noteq> []"
    and "breakpointSubs s = 0"
  shows "\<exists>s1. ngAfterViewInit_task s = Inr s1 \<and> breakpointSubs s1 = 1
     \<and> (\<forall>evs s2. (\<forall>e\<in>set evs. snd e \<noteq> ViewInitTask \<and> snd e \<noteq> Destroy)
           \<longrightarrow> run evs s1 = Inr s2
           \<longrightarrow> breakpointSubs s2 = 1
             \<and> breakpointMatch True s2 = Inr (disable s2)
             \<and> breakpointMatch False s2 = enable s2
             \<and> breakpointSubs (ngOnDestroy s2) = 0
             \<and> breakpointMatch True (ngOnDestroy s2) = Inr (ngOnDestroy s2)
             \<and> breakpointMatch False (ngOnDestroy s2) = Inr (ngOnDestroy s2))"
proof -
  obtain s1 where s1: "ngAfterViewInit_task s = Inr s1" and b1: "breakpointSubs s1 = 1"
    using assms
    by (cases "platformBrowser s")
       (auto simp add: ngAfterViewInit_task_def breakpointObserver_observe_def Let_def)
  have "breakpointSubs s2 = 1
      \<and> breakpointMatch True s2 = Inr (disable s2)
      \<and> breakpointMatch False s2 = enable s2
      \<and> breakpointSubs (ngOnDestroy s2) = 0
      \<and> breakpointMatch True (ngOnDestroy s2) = Inr (ngOnDestroy s2)
      \<and> breakpointMatch False (ngOnDestroy s2) = Inr (ngOnDestroy s2)"
    if "\<forall>e\<in>set evs. snd e \<noteq> ViewInitTask \<and> snd e \<noteq> Destroy" and "run evs s1 = Inr s2"
    for evs s2
  proof -
    have b2: "breakpointSubs s2 = 1"
      using run_breakpointSubs [OF that(2) that(1)] b1 by simp
    have "breakpointSubs (ngOnDestroy s2) = 0"
      by (simp add: ngOnDestroy_def Let_def split: option.splits)
    then show ?thesis
      using b2 breakpointMatch_single [OF b2] breakpointMatch_destroyed by simp
  qed
  with s1 b1 show ?thesis by blast
qed

theorem breakpoint_subscription_witness:
  "\<exists>s1. ngAfterViewInit_task (mounted True (box 2000 500)) = Inr s1 \<and> breakpointSubs s1 = 1
     \<and> breakpointMatch True (update 5 s1) = Inr (disable (update 5 s1))
     \<and> breakpointMatch False (update 5 s1) = enable (update 5 s1)
     \<and> breakpointMatch False (ngOnDestroy (update 5 s1)) = Inr (ngOnDestroy (update 5 s1))"
proof -
  have a: "\<not> disabled (mounted True (box 2000 500))"
    "disableOnBreakpoints (mounted True (box 2000 500))
       = Some [''HandsetLandscape'', ''HandsetPortrait'']"
    "[''HandsetLandscape'', ''HandsetPortrait''] \<noteq> []"
    "breakpointSubs (mounted True (box 2000 500)) = 0"
    by (simp_all add: mounted_def NgScrollbar_new_def)
  from breakpoint_subscription [OF a] obtain s1
    where s1: "ngAfterViewInit_task (mounted True (box 2000 500)) = Inr s1"
      "breakpointSubs s1 = 1"
      and later: "\<And>evs s2. (\<forall>e\<in>set evs. snd e \<noteq> ViewInitTask \<and> snd e \<noteq> Destroy)
           \<Longrightarrow> run evs s1 = Inr s2
           \<Longrightarrow> breakpointMatch True s2 = Inr (disable s2)
             \<and> breakpointMatch False s2 = enable s2
             \<and> breakpointMatch False (ngOnDestroy s2) = Inr (ngOnDestroy s2)"
    by blast
  have "run [(5, Update)] s1 = Inr (update 5 s1)" by simp
  from later [OF _ this] s1 show ?thesis by simp
qed

section \<open>Window resize\<close>

lemma update_disabled: "disabled s \<Longrightarrow> (update now ^^ k) s = s"
  by (induction k) (simp_all add: update_def)

text \<open>
  C9 (as stated, refuted). The claim: every resize event triggers \<open>update()\<close>, so resize
  pulses coalesce like the pulses of any other source. The resize pipeline has a
  \<open>throttleTime(200)\<close> of its own in front of \<open>update()\<close>: of two resize events 100 ms
  apart the second never reaches \<open>update()\<close>, where two calls of \<open>update()\<close> push two
  pulses; and after a pulse at 0 and resize events at 100 and 250 there is no re-check at
  250, where three calls of \<open>update()\<close> at these times give one.
\<close>

theorem resize_own_throttle_counterexample:
  "updatePulses (windowResize 100 (windowResize 0 (started (box 2000 500)))) = [0]
   \<and> updatePulses (update 100 (update 0 (started (box 2000 500)))) = [0, 100]
   \<and> rechecks (windowResize 250 (windowResize 100 (update 0 (started (box 2000 500))))) = [0]
   \<and> rechecks (update 250 (update 100 (update 0 (started (box 2000 500))))) = [0, 250]"
  by (simp add: windowResize_def started_def mounted_def NgScrollbar_new_def update_def
      updateObserver_next_def throttle_open_def throttle_next_def)

text \<open>
  C9 (amended). A window resize event first meets the resize pipeline's own
  \<open>throttleTime(200)\<close>. An event that this throttle lets through calls \<open>update()\<close>, so
  that its pulse takes the path of every other pulse (the test of \<open>disabled\<close>, then the
  throttled update stream) and no path of its own to the re-check: while the component
  is disabled a resize event pushes no pulse and causes no re-check. An event that
  arrives inside the window of the resize throttle is dropped without a call of
  \<open>update()\<close>.
\<close>

theorem resize_through_update:
  assumes "resizeSubs s = [r]"
  shows "(throttle_open now r \<longrightarrow> windowResize now s = update now (s\<lparr>resizeSubs := [Some now]\<rparr>))
       \<and> (\<not> throttle_open now r \<longrightarrow> windowResize now s = s)
       \<and> (disabled s \<longrightarrow> updatePulses (windowResize now s) = updatePulses s
                         \<and> rechecks (windowResize now s) = rechecks s)"
  using assms
  by (auto simp add: windowResize_def throttle_next_def update_disabled Let_def)

theorem resize_through_update_witness:
  "windowResize 0 (started (box 2000 500))
     = update 0 ((started (box 2000 500))\<lparr>resizeSubs := [Some 0]\<rparr>)
   \<and> windowResize 100 ((started (box 2000 500))\<lparr>resizeSubs := [Some 0]\<rparr>)
     = (started (box 2000 500))\<lparr>resizeSubs := [Some 0]\<rparr>
   \<and> rechecks (windowResize 0 (disable (started (box 2000 500)))) = []"
  using resize_through_update [of "started (box 2000 500)" None 0]
    resize_through_update [of "(started (box 2000 500))\<lparr>resizeSubs := [Some 0]\<rparr>" "Some 0" 100]
    resize_through_update [of "disable (started (box 2000 500))" None 0]
  by (simp add: started_facts throttle_open_def disable_def Let_def split: option.splits)
     (simp add: started_def mounted_def NgScrollbar_new_def update_def)

end
